theory Spec2Isabelle
  imports Main "HOL-Library.Word"
begin

section \<open>The AaveVault contract (packages/hardhat/contracts/AaveVault.sol)\<close>

text \<open>
  The contract is compiled with Solidity 0.8: every amount is a \<open>uint256\<close>, and every
  \<open>+\<close>, \<open>-\<close>, \<open>*\<close> and \<open>/\<close> on amounts is checked. An overflow, an underflow
  or a division by zero aborts the call with a panic, and a failed \<open>require\<close> aborts it
  with its message. An aborted call leaves no trace in storage or in balances.

  The spec's names for the failures are the contract's messages:
  \<^item> \<open>InvalidAmount\<close>: "Must deposit more than 0", "Must withdraw more than 0";
  \<^item> \<open>InsufficientBalance\<close>: "Insufficient balance";
  \<^item> \<open>NoIdleFunds\<close>: "No ETH to supply";
  \<^item> \<open>TransferFailed\<close>: "WETH transfer failed", "ETH transfer failed";
  \<^item> \<open>ExternalWithdrawFailed\<close>: a revert inside the pool (\<open>External_revert\<close>).
  \<open>Unfunded\<close> is the platform's refusal of a call whose attached value the sender cannot
  hold; no code of the contract runs then.
  The spec's \<open>principalDeposited\<close> is \<open>userDeposits\<close>, \<open>totalPrincipal\<close> is
  \<open>totalDeposits\<close>, the idle balance is \<open>address(this).balance\<close> and the yield-source
  claim is \<open>aToken.balanceOf(address(this))\<close>.
\<close>

type_synonym uint256 = "256 word"
type_synonym address = "160 word"

datatype error =
    Require string
  | Panic_overflow
  | Panic_div_zero
  | External_revert
  | Unfunded

subsection \<open>Checked arithmetic\<close>

definition checked_add :: "uint256 \<Rightarrow> uint256 \<Rightarrow> error + uint256" where
  "checked_add a b = (if unat a + unat b < 2 ^ 256 then Inr (a + b) else Inl Panic_overflow)"

definition checked_sub :: "uint256 \<Rightarrow> uint256 \<Rightarrow> error + uint256" where
  "checked_sub a b = (if b \<le> a then Inr (a - b) else Inl Panic_overflow)"

definition checked_mul :: "uint256 \<Rightarrow> uint256 \<Rightarrow> error + uint256" where
  "checked_mul a b = (if unat a * unat b < 2 ^ 256 then Inr (a * b) else Inl Panic_overflow)"

definition checked_div :: "uint256 \<Rightarrow> uint256 \<Rightarrow> error + uint256" where
  "checked_div a b = (if b = 0 then Inl Panic_div_zero else Inr (a div b))"

text \<open>Sequencing of steps that may abort: the first failure ends the call.\<close>

definition and_then :: "error + 'a \<Rightarrow> ('a \<Rightarrow> error + 'b) \<Rightarrow> error + 'b" where
  "and_then m f = (case m of Inl err \<Rightarrow> Inl err | Inr x \<Rightarrow> f x)"

subsection \<open>State\<close>

text \<open>
  The contract's storage (\<open>userDeposits\<close>, \<open>totalDeposits\<close>) together with the two
  balances its functions read: its own ether balance and its aToken balance.
\<close>

record vault =
  userDeposits :: "address \<Rightarrow> uint256"
  totalDeposits :: uint256
  ethBalance :: uint256
  aaveBalance :: uint256

datatype event =
    Deposited address uint256
  | SuppliedToAave uint256 address
  | Withdrawn address uint256 uint256

text \<open>
  The collaborators behind the three immutable addresses, and the caller's own code,
  are not part of the contract. Their answers are parameters of the model:
  \<^item> \<open>weth_deposit v\<close>, \<open>weth_approve v\<close>: whether the call returns (or reverts);
  \<^item> \<open>pool_supply v bal\<close>: the aToken balance after supplying \<open>v\<close> at balance
    \<open>bal\<close>, \<open>None\<close> when the pool reverts;
  \<^item> \<open>pool_withdraw v bal\<close>: the amount the pool reports as withdrawn and the aToken
    balance afterwards, \<open>None\<close> when the pool reverts;
  \<^item> \<open>weth_transfer to v\<close>: the boolean \<open>transfer\<close> returns, \<open>None\<close> when it reverts;
  \<^item> \<open>eth_accepted to v\<close>: whether the recipient's code accepts an ether transfer.
  A collaborator answers without calling back into the contract and without sending it
  ether, so that the balance read at line 106 is still the balance at line 133.
\<close>

record env =
  weth_deposit :: "uint256 \<Rightarrow> bool"
  weth_approve :: "uint256 \<Rightarrow> bool"
  pool_supply :: "uint256 \<Rightarrow> uint256 \<Rightarrow> uint256 option"
  pool_withdraw :: "uint256 \<Rightarrow> uint256 \<Rightarrow> (uint256 \<times> uint256) option"
  weth_transfer :: "address \<Rightarrow> uint256 \<Rightarrow> bool option"
  eth_accepted :: "address \<Rightarrow> uint256 \<Rightarrow> bool"

text \<open>What a successful \<open>withdraw\<close> leaves behind: the new state, the two transfers and the event.\<close>

record outcome =
  post :: vault
  ethSent :: uint256
  wethSent :: uint256
  emitted :: event

subsection \<open>Operations\<close>

text \<open>\<open>constructor\<close>: empty storage. The balances of a fresh address need not be zero.\<close>

definition fresh :: "uint256 \<Rightarrow> uint256 \<Rightarrow> vault" where
  "fresh eth atok =
     \<lparr>userDeposits = (\<lambda>_. 0), totalDeposits = 0, ethBalance = eth, aaveBalance = atok\<rparr>"

text \<open>
  The value attached to a call. The platform moves it to the contract before any code of
  the contract runs. The sum of all balances stays below \<open>2 ^ 256\<close>, so a balance
  never wraps: an amount that would take the contract's balance to \<open>2 ^ 256\<close> or more
  is more than any sender holds, and the platform refuses the call.
\<close>

definition credit :: "uint256 \<Rightarrow> vault \<Rightarrow> error + vault" where
  "credit v s =
     (if unat (ethBalance s) + unat v < 2 ^ 256
      then Inr (s\<lparr>ethBalance := ethBalance s + v\<rparr>)
      else Inl Unfunded)"

text \<open>\<open>receive() external payable {}\<close> (line 198): the ether arrives, the body is empty.\<close>

definition receive_ether :: "uint256 \<Rightarrow> vault \<Rightarrow> error + vault" where
  "receive_ether v s = credit v s"

text \<open>
  The body of \<open>deposit\<close> (lines 58-65), with \<open>v\<close> for \<open>msg.value\<close>. It runs in the
  state \<open>s\<close> whose balance already holds \<open>msg.value\<close>, and moves no ether itself.
\<close>

definition deposit :: "address \<Rightarrow> uint256 \<Rightarrow> vault \<Rightarrow> error + (vault \<times> event)" where
  "deposit sender v s =
     (if \<not> v > 0 then Inl (Require ''Must deposit more than 0'')
      else
        and_then (checked_add (userDeposits s sender) v) (\<lambda>u.
        and_then (checked_add (totalDeposits s) v) (\<lambda>t.
        Inr (s\<lparr>userDeposits := (userDeposits s)(sender := u), totalDeposits := t\<rparr>,
             Deposited sender v))))"

text \<open>A call to \<open>deposit\<close> with value \<open>v\<close> attached: the credit, then the body.\<close>

definition deposit_call :: "address \<Rightarrow> uint256 \<Rightarrow> vault \<Rightarrow> error + (vault \<times> event)" where
  "deposit_call sender v s = and_then (credit v s) (deposit sender v)"

text \<open>
  \<open>supplyToAave\<close> (lines 71-85). \<open>weth.deposit{value: ethBalance}\<close> moves the whole
  ether balance out; the pool takes the WETH and mints aTokens.
\<close>

definition supplyToAave :: "env \<Rightarrow> address \<Rightarrow> vault \<Rightarrow> error + (vault \<times> event)" where
  "supplyToAave e sender s =
     (let ethBal = ethBalance s in
      if \<not> ethBal > 0 then Inl (Require ''No ETH to supply'')
      else if \<not> weth_deposit e ethBal then Inl External_revert
      else if \<not> weth_approve e ethBal then Inl External_revert
      else
        (case pool_supply e ethBal (aaveBalance s) of
           None \<Rightarrow> Inl External_revert
         | Some bal' \<Rightarrow>
             Inr (s\<lparr>ethBalance := ethBalance s - ethBal, aaveBalance := bal'\<rparr>,
                  SuppliedToAave ethBal sender)))"

text \<open>\<open>getTotalVaultValue\<close> (lines 144-148).\<close>

definition getTotalVaultValue :: "vault \<Rightarrow> error + uint256" where
  "getTotalVaultValue s = checked_add (ethBalance s) (aaveBalance s)"

text \<open>
  \<open>withdraw\<close>, lines 106-124: where the payout comes from. The result is the state
  after the pool call, \<open>wethToSend\<close> and \<open>ethToSend\<close>. The subtraction is guarded by
  the test before it.
\<close>

definition route :: "env \<Rightarrow> uint256 \<Rightarrow> vault \<Rightarrow> error + (vault \<times> uint256 \<times> uint256)" where
  "route e userShare s =
     (let ethBal = ethBalance s; aaveBal = aaveBalance s in
      if userShare > ethBal \<and> aaveBal > 0 then
        (let amountToWithdraw = userShare - ethBal in
         case pool_withdraw e amountToWithdraw aaveBal of
           None \<Rightarrow> Inl External_revert
         | Some (withdrawn, bal') \<Rightarrow> Inr (s\<lparr>aaveBalance := bal'\<rparr>, withdrawn, ethBal))
      else Inr (s, 0, userShare))"

text \<open>\<open>withdraw\<close>, lines 126-129.\<close>

definition send_weth :: "env \<Rightarrow> address \<Rightarrow> uint256 \<Rightarrow> error + unit" where
  "send_weth e recipient wethToSend =
     (if wethToSend > 0 then
        (case weth_transfer e recipient wethToSend of
           None \<Rightarrow> Inl External_revert
         | Some ok \<Rightarrow> if ok then Inr () else Inl (Require ''WETH transfer failed''))
      else Inr ())"

text \<open>
  \<open>withdraw\<close>, lines 131-135. A call with more value than the contract holds fails, as
  does one the recipient's code rejects.
\<close>

definition send_eth :: "env \<Rightarrow> address \<Rightarrow> uint256 \<Rightarrow> vault \<Rightarrow> error + vault" where
  "send_eth e recipient ethToSend s =
     (if ethToSend > 0 then
        (if ethToSend \<le> ethBalance s \<and> eth_accepted e recipient ethToSend
         then Inr (s\<lparr>ethBalance := ethBalance s - ethToSend\<rparr>)
         else Inl (Require ''ETH transfer failed''))
      else Inr s)"

text \<open>\<open>withdraw\<close> (lines 93-138).\<close>

definition withdraw :: "env \<Rightarrow> address \<Rightarrow> uint256 \<Rightarrow> vault \<Rightarrow> error + outcome" where
  "withdraw e sender amount s =
     (if \<not> amount > 0 then Inl (Require ''Must withdraw more than 0'')
      else if \<not> userDeposits s sender \<ge> amount then Inl (Require ''Insufficient balance'')
      else
        and_then (getTotalVaultValue s) (\<lambda>totalVaultValue.
        and_then (checked_mul totalVaultValue amount) (\<lambda>product.
        and_then (checked_div product (totalDeposits s)) (\<lambda>userShare.
        and_then (checked_sub (userDeposits s sender) amount) (\<lambda>u.
        and_then (checked_sub (totalDeposits s) amount) (\<lambda>t.
        and_then (route e userShare
                    (s\<lparr>userDeposits := (userDeposits s)(sender := u), totalDeposits := t\<rparr>))
          (\<lambda>(s2, wethToSend, ethToSend).
        and_then (send_weth e sender wethToSend) (\<lambda>_.
        and_then (send_eth e sender ethToSend s2) (\<lambda>s3.
        Inr \<lparr>post = s3, ethSent = ethToSend, wethSent = wethToSend,
             emitted = Withdrawn sender amount userShare\<rparr>)))))))))"

text \<open>\<open>getUserValue\<close> (lines 155-160).\<close>

definition getUserValue :: "vault \<Rightarrow> address \<Rightarrow> error + uint256" where
  "getUserValue s user =
     (if totalDeposits s = 0 then Inr 0
      else
        and_then (getTotalVaultValue s) (\<lambda>totalVaultValue.
        and_then (checked_mul totalVaultValue (userDeposits s user)) (\<lambda>product.
        checked_div product (totalDeposits s))))"

text \<open>\<open>getUserInterest\<close> (lines 167-177).\<close>

definition getUserInterest :: "vault \<Rightarrow> address \<Rightarrow> error + uint256" where
  "getUserInterest s user =
     (if totalDeposits s = 0 then Inr 0
      else
        and_then (getTotalVaultValue s) (\<lambda>totalVaultValue.
        and_then (checked_mul totalVaultValue (userDeposits s user)) (\<lambda>product.
        and_then (checked_div product (totalDeposits s)) (\<lambda>userTotalValue.
        if userTotalValue > userDeposits s user
        then Inr (userTotalValue - userDeposits s user)
        else Inr 0))))"

text \<open>\<open>getEthBalance\<close> and \<open>getAaveBalance\<close> (lines 183-193).\<close>

definition getEthBalance :: "vault \<Rightarrow> uint256" where
  "getEthBalance s = ethBalance s"

definition getAaveBalance :: "vault \<Rightarrow> uint256" where
  "getAaveBalance s = aaveBalance s"

subsection \<open>Calls as transactions\<close>

text \<open>The state a call leaves: the new one when it returns, the old one when it aborts.\<close>

definition state_after :: "vault \<Rightarrow> error + 'r \<Rightarrow> ('r \<Rightarrow> vault) \<Rightarrow> vault" where
  "state_after s r new = (case r of Inl _ \<Rightarrow> s | Inr x \<Rightarrow> new x)"

text \<open>The value a call to \<open>withdraw\<close> hands to the caller, in both forms together.\<close>

definition value_received :: "error + outcome \<Rightarrow> nat" where
  "value_received r = (case r of Inl _ \<Rightarrow> 0 | Inr out \<Rightarrow> unat (ethSent out) + unat (wethSent out))"

text \<open>
  The states the contract can be in: a fresh deployment, then any sequence of calls that
  return, of plain ether transfers to it, and of changes of its aToken balance (which
  the pool rebases as interest accrues).
\<close>

inductive reachable :: "vault \<Rightarrow> bool" where
  deployed: "reachable (fresh eth atok)"
| after_deposit: "reachable s \<Longrightarrow> deposit_call a v s = Inr (s', ev) \<Longrightarrow> reachable s'"
| after_supply: "reachable s \<Longrightarrow> supplyToAave e a s = Inr (s', ev) \<Longrightarrow> reachable s'"
| after_withdraw: "reachable s \<Longrightarrow> withdraw e a n s = Inr out \<Longrightarrow> reachable (post out)"
| after_receive: "reachable s \<Longrightarrow> receive_ether v s = Inr s' \<Longrightarrow> reachable s'"
| after_accrual: "reachable s \<Longrightarrow> reachable (s\<lparr>aaveBalance := b\<rparr>)"

subsection \<open>Quantities of the specification\<close>

text \<open>The sum of the recorded principals over all addresses.\<close>

definition principal_sum :: "vault \<Rightarrow> nat" where
  "principal_sum s = (\<Sum>a\<in>UNIV. unat (userDeposits s a))"

text \<open>Idle balance plus yield-source claim, as a natural number.\<close>

definition vault_value :: "vault \<Rightarrow> nat" where
  "vault_value s = unat (ethBalance s) + unat (aaveBalance s)"

text \<open>The spec's payout, \<open>floor(totalVaultValue * amount / totalPrincipal)\<close>.\<close>

definition payout :: "vault \<Rightarrow> uint256 \<Rightarrow> nat" where
  "payout s amount = vault_value s * unat amount div unat (totalDeposits s)"

text \<open>The spec's \<open>userValue\<close> and \<open>userInterest\<close>, written from its formulas.\<close>

definition userValue_spec :: "vault \<Rightarrow> address \<Rightarrow> nat" where
  "userValue_spec s d =
     (if totalDeposits s = 0 then 0
      else vault_value s * unat (userDeposits s d) div unat (totalDeposits s))"

definition userInterest_spec :: "vault \<Rightarrow> address \<Rightarrow> nat" where
  "userInterest_spec s d =
     nat (max 0 (int (userValue_spec s d) - int (unat (userDeposits s d))))"

subsection \<open>Collaborators for concrete runs\<close>

text \<open>
  A deterministic stand-in for the wrapper, the pool and the caller: every call returns,
  the pool credits a supply one for one and hands back exactly what is asked for while
  the claim covers it.
\<close>

definition faithful_env :: env where
  "faithful_env =
     \<lparr>weth_deposit = (\<lambda>_. True),
      weth_approve = (\<lambda>_. True),
      pool_supply = (\<lambda>v bal. if unat bal + unat v < 2 ^ 256 then Some (bal + v) else None),
      pool_withdraw = (\<lambda>v bal. if v \<le> bal then Some (v, bal - v) else None),
      weth_transfer = (\<lambda>_ _. Some True),
      eth_accepted = (\<lambda>_ _. True)\<rparr>"

text \<open>The same, except that the pool keeps one unit of every withdrawal as a fee.\<close>

definition fee_env :: env where
  "fee_env = faithful_env\<lparr>pool_withdraw := (\<lambda>v bal. if v \<le> bal \<and> 0 < v then Some (v - 1, bal - v) else None)\<rparr>"

text \<open>
  In a withdrawal of \<open>amount\<close> from the state \<open>s\<close>, the pool hands back exactly what it
  is asked for. Nothing is said about its answers to other requests or at other balances.
\<close>

definition hands_back :: "env \<Rightarrow> vault \<Rightarrow> uint256 \<Rightarrow> bool" where
  "hands_back e s amount =
     (\<forall>request r bal'.
        unat request = payout s amount - unat (ethBalance s) \<and>
        pool_withdraw e request (aaveBalance s) = Some (r, bal') \<longrightarrow> r = request)"


section \<open>Auxiliary facts\<close>

lemma and_then_Inl: "and_then (Inl err) f = Inl err"
  by (simp add: and_then_def)

lemma and_then_Inr: "and_then (Inr x) f = f x"
  by (simp add: and_then_def)

lemma and_then_Inr_iff: "and_then m f = Inr y \<longleftrightarrow> (\<exists>x. m = Inr x \<and> f x = Inr y)"
  by (cases m) (simp_all add: and_then_def)

lemma checked_add_Inr_iff:
  "checked_add a b = Inr c \<longleftrightarrow> unat a + unat b < 2 ^ 256 \<and> c = a + b"
  by (auto simp: checked_add_def)

lemma unat_add_fits: "unat a + unat b < 2 ^ 256 \<Longrightarrow> unat (a + b :: uint256) = unat a + unat b"
  using unat_add_lem [of a b] by simp

lemma unat_mul_fits: "unat a * unat b < 2 ^ 256 \<Longrightarrow> unat (a * b :: uint256) = unat a * unat b"
  using unat_mult_lem [of a b] by simp

lemma checked_mul_Inr_iff:
  "checked_mul a b = Inr c \<longleftrightarrow> unat a * unat b < 2 ^ 256 \<and> c = a * b"
  by (auto simp: checked_mul_def)

lemma checked_sub_Inr_iff: "checked_sub a b = Inr c \<longleftrightarrow> b \<le> a \<and> c = a - b"
  by (auto simp: checked_sub_def)

lemma checked_div_Inr_iff: "checked_div a b = Inr c \<longleftrightarrow> b \<noteq> 0 \<and> c = a div b"
  by (auto simp: checked_div_def)

lemma getTotalVaultValue_Inr_iff:
  "getTotalVaultValue s = Inr t \<longleftrightarrow> vault_value s < 2 ^ 256 \<and> t = ethBalance s + aaveBalance s"
  by (simp add: getTotalVaultValue_def checked_add_Inr_iff vault_value_def)

lemma unat_total_value:
  "vault_value s < 2 ^ 256 \<Longrightarrow> unat (ethBalance s + aaveBalance s) = vault_value s"
  by (simp add: vault_value_def unat_add_fits)

lemma withdraw_InrD:
  assumes "withdraw e a n s = Inr out"
  obtains share s2 where
    "0 < n" "n \<le> userDeposits s a" "vault_value s < 2 ^ 256"
    "vault_value s * unat n < 2 ^ 256" "totalDeposits s \<noteq> 0" "n \<le> totalDeposits s"
    "unat share = payout s n"
    "route e share (s\<lparr>userDeposits := (userDeposits s)(a := userDeposits s a - n),
                      totalDeposits := totalDeposits s - n\<rparr>) = Inr (s2, wethSent out, ethSent out)"
    "send_weth e a (wethSent out) = Inr ()"
    "send_eth e a (ethSent out) s2 = Inr (post out)"
    "emitted out = Withdrawn a n share"
proof -
  from assms have pre: "0 < n" "n \<le> userDeposits s a"
    by (auto simp: withdraw_def split: if_splits)
  with assms obtain t p share u tt s2 w x s3 where
    st: "getTotalVaultValue s = Inr t" "checked_mul t n = Inr p"
        "checked_div p (totalDeposits s) = Inr share"
        "checked_sub (userDeposits s a) n = Inr u"
        "checked_sub (totalDeposits s) n = Inr tt"
        "route e share (s\<lparr>userDeposits := (userDeposits s)(a := u), totalDeposits := tt\<rparr>) = Inr (s2, w, x)"
        "send_weth e a w = Inr ()" "send_eth e a x s2 = Inr s3"
        "out = \<lparr>post = s3, ethSent = x, wethSent = w, emitted = Withdrawn a n share\<rparr>"
    by (auto simp: withdraw_def and_then_Inr_iff split: if_splits)
  from st(1) have v: "vault_value s < 2 ^ 256" and t: "t = ethBalance s + aaveBalance s"
    by (simp_all add: getTotalVaultValue_Inr_iff)
  then have ut: "unat t = vault_value s" by (simp add: unat_total_value)
  from st(2) ut have m: "vault_value s * unat n < 2 ^ 256" and p: "unat p = vault_value s * unat n"
    by (auto simp: checked_mul_Inr_iff unat_mul_fits)
  from st(3) p have d: "totalDeposits s \<noteq> 0" and sh: "unat share = payout s n"
    by (auto simp: checked_div_Inr_iff payout_def unat_div)
  from st(4) have u: "u = userDeposits s a - n" by (simp add: checked_sub_Inr_iff)
  from st(5) have tt: "n \<le> totalDeposits s" "tt = totalDeposits s - n"
    by (simp_all add: checked_sub_Inr_iff)
  show thesis
    using that [of share s2] pre v m d tt sh st(6-9) u by simp
qed

lemma principal_sum_update:
  "principal_sum (s\<lparr>userDeposits := (userDeposits s)(a := u)\<rparr>) + unat (userDeposits s a)
     = principal_sum s + unat u"
proof -
  let ?f = "\<lambda>b. unat (userDeposits s b)"
  let ?g = "\<lambda>b. unat (((userDeposits s)(a := u)) b)"
  have rest: "sum ?g (UNIV - {a}) = sum ?f (UNIV - {a})"
    by (rule sum.cong) simp_all
  have f: "sum ?f UNIV = ?f a + sum ?f (UNIV - {a})"
    by (rule sum.remove) simp_all
  have g: "sum ?g UNIV = ?g a + sum ?g (UNIV - {a})"
    by (rule sum.remove) simp_all
  from f g rest show ?thesis
    by (simp add: principal_sum_def)
qed

lemma principal_sum_frame:
  "userDeposits s' = userDeposits s \<Longrightarrow> principal_sum s' = principal_sum s"
  by (simp add: principal_sum_def)

lemma route_frame:
  assumes "route e share s = Inr (s2, w, x)"
  shows "userDeposits s2 = userDeposits s" "totalDeposits s2 = totalDeposits s"
    "ethBalance s2 = ethBalance s"
  using assms by (auto simp: route_def Let_def split: if_splits option.splits)

lemma send_eth_frame:
  assumes "send_eth e a x s = Inr s'"
  shows "userDeposits s' = userDeposits s" "totalDeposits s' = totalDeposits s"
    "aaveBalance s' = aaveBalance s" "unat (ethBalance s') + unat x = unat (ethBalance s)"
  using assms by (auto simp: send_eth_def unat_sub word_le_nat_alt word_gt_0 split: if_splits)

lemma credit_Inr_iff:
  "credit v s = Inr s' \<longleftrightarrow>
     unat (ethBalance s) + unat v < 2 ^ 256 \<and> s' = s\<lparr>ethBalance := ethBalance s + v\<rparr>"
  by (auto simp: credit_def)

lemma deposit_Inr_iff:
  "deposit a v s = Inr r \<longleftrightarrow>
     0 < v \<and> unat (userDeposits s a) + unat v < 2 ^ 256 \<and> unat (totalDeposits s) + unat v < 2 ^ 256 \<and>
     r = (s\<lparr>userDeposits := (userDeposits s)(a := userDeposits s a + v),
            totalDeposits := totalDeposits s + v\<rparr>, Deposited a v)"
  by (auto simp: deposit_def and_then_Inr_iff checked_add_Inr_iff)

lemma deposit_call_Inr_iff:
  "deposit_call a v s = Inr r \<longleftrightarrow>
     0 < v \<and> unat (ethBalance s) + unat v < 2 ^ 256 \<and>
     unat (userDeposits s a) + unat v < 2 ^ 256 \<and> unat (totalDeposits s) + unat v < 2 ^ 256 \<and>
     r = (s\<lparr>ethBalance := ethBalance s + v,
            userDeposits := (userDeposits s)(a := userDeposits s a + v),
            totalDeposits := totalDeposits s + v\<rparr>, Deposited a v)"
  by (auto simp: deposit_call_def and_then_Inr_iff credit_Inr_iff deposit_Inr_iff)

lemma deposit_keeps_sum:
  assumes "deposit_call a v s = Inr (s', ev)" and "principal_sum s = unat (totalDeposits s)"
  shows "principal_sum s' = unat (totalDeposits s')"
proof -
  from assms(1) have fits: "unat (userDeposits s a) + unat v < 2 ^ 256"
      "unat (totalDeposits s) + unat v < 2 ^ 256"
    and s': "s' = s\<lparr>ethBalance := ethBalance s + v,
            userDeposits := (userDeposits s)(a := userDeposits s a + v),
            totalDeposits := totalDeposits s + v\<rparr>"
    by (simp_all add: deposit_call_Inr_iff)
  have "principal_sum s' = principal_sum (s\<lparr>userDeposits := (userDeposits s)(a := userDeposits s a + v)\<rparr>)"
    by (rule principal_sum_frame) (simp add: s')
  moreover have "principal_sum (s\<lparr>userDeposits := (userDeposits s)(a := userDeposits s a + v)\<rparr>)
      + unat (userDeposits s a) = principal_sum s + unat (userDeposits s a + v)"
    by (rule principal_sum_update)
  ultimately show ?thesis
    using fits assms(2) by (simp add: s' unat_add_fits)
qed

lemma withdraw_keeps_sum:
  assumes "withdraw e a n s = Inr out" and "principal_sum s = unat (totalDeposits s)"
  shows "principal_sum (post out) = unat (totalDeposits (post out))"
proof -
  let ?s1 = "s\<lparr>userDeposits := (userDeposits s)(a := userDeposits s a - n),
                totalDeposits := totalDeposits s - n\<rparr>"
  from assms(1) obtain share s2 where
    le: "n \<le> userDeposits s a" "n \<le> totalDeposits s"
    and r: "route e share ?s1 = Inr (s2, wethSent out, ethSent out)"
    and se: "send_eth e a (ethSent out) s2 = Inr (post out)"
    by (rule withdraw_InrD)
  have ud: "userDeposits (post out) = (userDeposits s)(a := userDeposits s a - n)"
    and td: "totalDeposits (post out) = totalDeposits s - n"
    using route_frame [OF r] send_eth_frame [OF se] by simp_all
  have "principal_sum (post out) = principal_sum (s\<lparr>userDeposits := (userDeposits s)(a := userDeposits s a - n)\<rparr>)"
    by (rule principal_sum_frame) (simp add: ud)
  moreover have "principal_sum (s\<lparr>userDeposits := (userDeposits s)(a := userDeposits s a - n)\<rparr>)
      + unat (userDeposits s a) = principal_sum s + unat (userDeposits s a - n)"
    by (rule principal_sum_update)
  ultimately show ?thesis
    using le assms(2) by (simp add: td unat_sub word_le_nat_alt)
qed

lemma supply_frame:
  assumes "supplyToAave e a s = Inr (s', ev)"
  shows "userDeposits s' = userDeposits s" "totalDeposits s' = totalDeposits s"
  using assms by (auto simp: supplyToAave_def Let_def split: if_splits option.splits)

lemma route_idle: "share \<le> ethBalance s \<Longrightarrow> route e share s = Inr (s, 0, share)"
  by (simp add: route_def Let_def not_less [symmetric])

lemma route_empty: "aaveBalance s = 0 \<Longrightarrow> route e share s = Inr (s, 0, share)"
  by (simp add: route_def Let_def)

lemma route_pull:
  "ethBalance s < share \<Longrightarrow> aaveBalance s \<noteq> 0 \<Longrightarrow>
   route e share s =
     (case pool_withdraw e (share - ethBalance s) (aaveBalance s) of
        None \<Rightarrow> Inl External_revert
      | Some (withdrawn, bal') \<Rightarrow> Inr (s\<lparr>aaveBalance := bal'\<rparr>, withdrawn, ethBalance s))"
  by (simp add: route_def Let_def word_gt_0)

lemma send_eth_short:
  "ethBalance s < x \<Longrightarrow> send_eth e a x s = Inl (Require ''ETH transfer failed'')"
  by (auto simp: send_eth_def word_gt_0 not_le [symmetric])

lemma send_eth_all:
  "send_eth e a (ethBalance s) s = Inr s' \<Longrightarrow> ethBalance s' = 0"
  by (auto simp: send_eth_def word_gt_0 split: if_splits)

lemma withdraw_from_idle:
  assumes "withdraw e a n s = Inr out" and "payout s n \<le> unat (ethBalance s)"
  shows "unat (ethSent out) = payout s n \<and> wethSent out = 0 \<and>
        aaveBalance (post out) = aaveBalance s \<and>
        unat (ethBalance (post out)) + payout s n = unat (ethBalance s)"
proof -
  let ?s1 = "s\<lparr>userDeposits := (userDeposits s)(a := userDeposits s a - n),
                totalDeposits := totalDeposits s - n\<rparr>"
  from assms(1) obtain share s2 where
    sh: "unat share = payout s n"
    and r: "route e share ?s1 = Inr (s2, wethSent out, ethSent out)"
    and se: "send_eth e a (ethSent out) s2 = Inr (post out)"
    by (rule withdraw_InrD)
  from assms(2) sh have "share \<le> ethBalance ?s1" by (simp add: word_le_nat_alt)
  from route_idle [OF this, of e] r
  have eq: "s2 = ?s1" "wethSent out = 0" "ethSent out = share" by simp_all
  from send_eth_frame [OF se] eq sh show ?thesis by simp
qed

lemma withdraw_from_pool:
  assumes "withdraw e a n s = Inr out" and "unat (ethBalance s) < payout s n"
  shows "\<exists>request bal'.
           unat request = payout s n - unat (ethBalance s) \<and>
           pool_withdraw e request (aaveBalance s) = Some (wethSent out, bal') \<and>
           ethSent out = ethBalance s \<and>
           aaveBalance (post out) = bal' \<and> ethBalance (post out) = 0"
proof -
  let ?s1 = "s\<lparr>userDeposits := (userDeposits s)(a := userDeposits s a - n),
                totalDeposits := totalDeposits s - n\<rparr>"
  from assms(1) obtain share s2 where
    sh: "unat share = payout s n"
    and r: "route e share ?s1 = Inr (s2, wethSent out, ethSent out)"
    and se: "send_eth e a (ethSent out) s2 = Inr (post out)"
    by (rule withdraw_InrD)
  from assms(2) sh have lt: "ethBalance ?s1 < share" by (simp add: word_less_nat_alt)
  have nz: "aaveBalance ?s1 \<noteq> 0"
  proof
    assume "aaveBalance ?s1 = 0"
    from route_empty [OF this, of e share] r
    have "s2 = ?s1" "ethSent out = share" by simp_all
    with se send_eth_short [of ?s1 share e a] lt show False by simp
  qed
  from route_pull [OF lt nz, of e] r obtain bal' where
    pw: "pool_withdraw e (share - ethBalance s) (aaveBalance s) = Some (wethSent out, bal')"
    and s2: "s2 = ?s1\<lparr>aaveBalance := bal'\<rparr>" and es: "ethSent out = ethBalance s"
    by (auto split: option.splits)
  from lt sh have u: "unat (share - ethBalance s) = payout s n - unat (ethBalance s)"
    by (simp add: unat_sub word_le_nat_alt word_less_nat_alt)
  from se es s2 have "send_eth e a (ethBalance s2) s2 = Inr (post out)" by simp
  then have z: "ethBalance (post out) = 0" by (rule send_eth_all)
  from send_eth_frame(3) [OF se] s2 have "aaveBalance (post out) = bal'" by simp
  with u pw es z show ?thesis by blast
qed


lemma withdraw_pre:
  assumes "withdraw e a n s = Inr out"
  shows "0 < n" "n \<le> userDeposits s a"
  using assms by (auto simp: withdraw_def split: if_splits)

lemma deposit_zero: "deposit a 0 s = Inl (Require ''Must deposit more than 0'')"
  by (simp add: deposit_def)

lemma deposit_overflow:
  assumes "v \<noteq> 0"
    and "\<not> (unat (userDeposits s a) + unat v < 2 ^ 256 \<and> unat (totalDeposits s) + unat v < 2 ^ 256)"
  shows "deposit a v s = Inl Panic_overflow"
  using assms
  by (auto simp: deposit_def checked_add_def and_then_def word_gt_0)

lemma deposit_fits:
  assumes "v \<noteq> 0" and "unat (userDeposits s a) + unat v < 2 ^ 256"
    and "unat (totalDeposits s) + unat v < 2 ^ 256"
  shows "deposit a v s =
     Inr (s\<lparr>userDeposits := (userDeposits s)(a := userDeposits s a + v),
            totalDeposits := totalDeposits s + v\<rparr>, Deposited a v)"
  using assms by (simp add: deposit_Inr_iff word_gt_0)

lemma share_fits:
  assumes "totalDeposits s \<noteq> 0" and "vault_value s < 2 ^ 256"
    and "vault_value s * unat x < 2 ^ 256"
  shows "and_then (getTotalVaultValue s) (\<lambda>t. and_then (checked_mul t x) (\<lambda>p. checked_div p (totalDeposits s)))
         = Inr ((ethBalance s + aaveBalance s) * x div totalDeposits s)"
    and "unat ((ethBalance s + aaveBalance s) * x div totalDeposits s)
         = vault_value s * unat x div unat (totalDeposits s)"
proof -
  from assms(2) have t: "getTotalVaultValue s = Inr (ethBalance s + aaveBalance s)"
    by (simp add: getTotalVaultValue_Inr_iff)
  from assms(2) have ut: "unat (ethBalance s + aaveBalance s) = vault_value s"
    by (rule unat_total_value)
  with assms(3) have m: "checked_mul (ethBalance s + aaveBalance s) x = Inr ((ethBalance s + aaveBalance s) * x)"
    by (simp add: checked_mul_def)
  from assms(1) have d: "checked_div ((ethBalance s + aaveBalance s) * x) (totalDeposits s)
      = Inr ((ethBalance s + aaveBalance s) * x div totalDeposits s)"
    by (simp add: checked_div_def)
  from t m d show "and_then (getTotalVaultValue s) (\<lambda>t. and_then (checked_mul t x) (\<lambda>p. checked_div p (totalDeposits s)))
         = Inr ((ethBalance s + aaveBalance s) * x div totalDeposits s)"
    by (simp add: and_then_Inr)
  from ut assms(3) show "unat ((ethBalance s + aaveBalance s) * x div totalDeposits s)
         = vault_value s * unat x div unat (totalDeposits s)"
    by (simp add: unat_div unat_mul_fits)
qed

lemma share_overflows:
  assumes "\<not> (vault_value s < 2 ^ 256 \<and> vault_value s * unat x < 2 ^ 256)"
  shows "and_then (getTotalVaultValue s) (\<lambda>t. and_then (checked_mul t x) f) = Inl Panic_overflow"
proof (cases "vault_value s < 2 ^ 256")
  case True
  then have t: "getTotalVaultValue s = Inr (ethBalance s + aaveBalance s)"
    by (simp add: getTotalVaultValue_Inr_iff)
  from True have "unat (ethBalance s + aaveBalance s) = vault_value s"
    by (rule unat_total_value)
  with assms True have "checked_mul (ethBalance s + aaveBalance s) x = Inl Panic_overflow"
    by (simp add: checked_mul_def)
  with t show ?thesis by (simp add: and_then_Inr and_then_Inl)
next
  case False
  then have "getTotalVaultValue s = Inl Panic_overflow"
    by (simp add: getTotalVaultValue_def checked_add_def vault_value_def)
  then show ?thesis by (simp add: and_then_Inl)
qed

lemma nat_max_diff: "nat (max 0 (int a - int b)) = a - b"
  by simp

lemma userInterest_spec_alt:
  "userInterest_spec s d = userValue_spec s d - unat (userDeposits s d)"
  unfolding userInterest_spec_def by (rule nat_max_diff)

lemma getUserValue_fits:
  assumes "totalDeposits s = 0 \<or> (vault_value s < 2 ^ 256 \<and> vault_value s * unat (userDeposits s d) < 2 ^ 256)"
  shows "\<exists>v. getUserValue s d = Inr v \<and> unat v = userValue_spec s d"
proof (cases "totalDeposits s = 0")
  case True
  then show ?thesis by (simp add: getUserValue_def userValue_spec_def)
next
  case False
  with assms have f: "vault_value s < 2 ^ 256" "vault_value s * unat (userDeposits s d) < 2 ^ 256"
    by simp_all
  from share_fits [OF False f] False show ?thesis
    by (simp add: getUserValue_def userValue_spec_def)
qed

lemma getUserInterest_fits:
  assumes "totalDeposits s = 0 \<or> (vault_value s < 2 ^ 256 \<and> vault_value s * unat (userDeposits s d) < 2 ^ 256)"
  shows "\<exists>i. getUserInterest s d = Inr i \<and> unat i = userInterest_spec s d"
proof (cases "totalDeposits s = 0")
  case True
  then show ?thesis by (simp add: getUserInterest_def userInterest_spec_def userValue_spec_def)
next
  case False
  with assms have f: "vault_value s < 2 ^ 256" "vault_value s * unat (userDeposits s d) < 2 ^ 256"
    by simp_all
  let ?v = "(ethBalance s + aaveBalance s) * userDeposits s d div totalDeposits s"
  have mid: "and_then (getTotalVaultValue s) (\<lambda>t. and_then (checked_mul t (userDeposits s d))
                (\<lambda>p. and_then (checked_div p (totalDeposits s)) g)) = g ?v" for g :: "uint256 \<Rightarrow> error + uint256"
    using f False
    by (simp add: getTotalVaultValue_def checked_add_def checked_mul_def checked_div_def
        and_then_def vault_value_def unat_add_fits)
  have uv: "unat ?v = userValue_spec s d"
    using share_fits(2) [OF False f] False by (simp add: userValue_spec_def)
  show ?thesis
  proof (cases "userDeposits s d < ?v")
    case True
    then have "getUserInterest s d = Inr (?v - userDeposits s d)"
      using False by (simp add: getUserInterest_def mid)
    moreover from True uv have "unat (?v - userDeposits s d) = userInterest_spec s d"
      by (simp add: userInterest_spec_alt unat_sub word_less_nat_alt word_le_nat_alt)
    ultimately show ?thesis by simp
  next
    case no: False
    then have "getUserInterest s d = Inr 0"
      using False by (simp add: getUserInterest_def mid)
    moreover from no uv have "userInterest_spec s d = 0"
      by (simp add: userInterest_spec_alt word_less_nat_alt)
    ultimately show ?thesis by simp
  qed
qed

lemma queries_overflow:
  assumes "totalDeposits s \<noteq> 0"
    and "\<not> (vault_value s < 2 ^ 256 \<and> vault_value s * unat (userDeposits s d) < 2 ^ 256)"
  shows "getUserValue s d = Inl Panic_overflow" "getUserInterest s d = Inl Panic_overflow"
  using assms share_overflows [OF assms(2)]
  by (simp_all add: getUserValue_def getUserInterest_def)


lemma getTotalVaultValue_cases:
  "getTotalVaultValue s = Inr (ethBalance s + aaveBalance s) \<or> getTotalVaultValue s = Inl Panic_overflow"
  by (simp add: getTotalVaultValue_def checked_add_def)




lemma receive_Inr_iff:
  "receive_ether v s = Inr s' \<longleftrightarrow>
     unat (ethBalance s) + unat v < 2 ^ 256 \<and> s' = s\<lparr>ethBalance := ethBalance s + v\<rparr>"
  by (simp add: receive_ether_def credit_Inr_iff)


lemma receive_frame:
  assumes "receive_ether v s = Inr s'"
  shows "userDeposits s' = userDeposits s" "totalDeposits s' = totalDeposits s"
    "aaveBalance s' = aaveBalance s"
    "unat (ethBalance s') = unat (ethBalance s) + unat v"
    "vault_value s' = vault_value s + unat v"
  using assms by (auto simp: receive_Inr_iff vault_value_def unat_add_fits)

lemma total_value_query:
  "vault_value s < 2 ^ 256 \<Longrightarrow> \<exists>t. getTotalVaultValue s = Inr t \<and> unat t = vault_value s"
  "\<not> vault_value s < 2 ^ 256 \<Longrightarrow> getTotalVaultValue s = Inl Panic_overflow"
  by (simp_all add: getTotalVaultValue_def checked_add_def vault_value_def unat_add_fits)






lemma and_then_Inl_iff:
  "and_then m f = Inl err \<longleftrightarrow> m = Inl err \<or> (\<exists>x. m = Inr x \<and> f x = Inl err)"
  by (cases m) (simp_all add: and_then_def)

lemma checked_errors:
  "checked_add x y = Inl err \<Longrightarrow> err = Panic_overflow"
  "checked_sub x y = Inl err \<Longrightarrow> err = Panic_overflow"
  "checked_mul x y = Inl err \<Longrightarrow> err = Panic_overflow"
  "checked_div x y = Inl err \<Longrightarrow> err = Panic_div_zero"
  by (auto simp: checked_add_def checked_sub_def checked_mul_def checked_div_def split: if_splits)

lemma route_error: "route e share s = Inl err \<Longrightarrow> err = External_revert"
  by (auto simp: route_def Let_def split: if_splits option.splits)

lemma send_weth_error:
  "send_weth e a w = Inl err \<Longrightarrow> err = External_revert \<or> err = Require ''WETH transfer failed''"
  by (auto simp: send_weth_def split: if_splits option.splits)

lemma send_eth_error: "send_eth e a x s = Inl err \<Longrightarrow> err = Require ''ETH transfer failed''"
  by (auto simp: send_eth_def split: if_splits)

lemma send_weth_accepted:
  "send_weth e a w = Inr u \<Longrightarrow> w \<noteq> 0 \<Longrightarrow> weth_transfer e a w = Some True"
  by (auto simp: send_weth_def word_gt_0 split: if_splits option.splits)

lemma send_eth_accepted:
  "send_eth e a x s = Inr s' \<Longrightarrow> x \<noteq> 0 \<Longrightarrow> eth_accepted e a x \<and> x \<le> ethBalance s"
  by (auto simp: send_eth_def word_gt_0 split: if_splits)

lemma withdraw_transfers_accepted:
  assumes "withdraw e a n s = Inr out"
  shows "wethSent out \<noteq> 0 \<Longrightarrow> weth_transfer e a (wethSent out) = Some True"
    and "ethSent out \<noteq> 0 \<Longrightarrow> eth_accepted e a (ethSent out)"
proof -
  from assms obtain share s2 where
    sw: "send_weth e a (wethSent out) = Inr ()"
    and se: "send_eth e a (ethSent out) s2 = Inr (post out)"
    by (rule withdraw_InrD)
  show "wethSent out \<noteq> 0 \<Longrightarrow> weth_transfer e a (wethSent out) = Some True"
    using sw by (rule send_weth_accepted)
  show "ethSent out \<noteq> 0 \<Longrightarrow> eth_accepted e a (ethSent out)"
    using send_eth_accepted [OF se] by simp
qed

lemma withdraw_error:
  assumes "withdraw e a n s = Inl err"
  shows "err = Require ''Must withdraw more than 0'' \<or> err = Require ''Insufficient balance'' \<or>
         err = Panic_overflow \<or> err = Panic_div_zero \<or> err = External_revert \<or>
         err = Require ''WETH transfer failed'' \<or> err = Require ''ETH transfer failed''"
proof (cases "0 < n \<and> n \<le> userDeposits s a")
  case False
  with assms show ?thesis
    by (auto simp: withdraw_def split: if_splits)
next
  case True
  with assms show ?thesis
    by (auto simp: withdraw_def and_then_Inl_iff getTotalVaultValue_def
        dest!: checked_errors route_error send_weth_error send_eth_error)
qed

lemma withdraw_pool_revert:
  assumes "0 < n" "n \<le> userDeposits s a" "n \<le> totalDeposits s"
    and "vault_value s < 2 ^ 256" "vault_value s * unat n < 2 ^ 256"
    and "unat (ethBalance s) < payout s n" "aaveBalance s \<noteq> 0"
    and "unat request = payout s n - unat (ethBalance s)"
    and "pool_withdraw e request (aaveBalance s) = None"
  shows "withdraw e a n s = Inl External_revert"
proof -
  let ?share = "(ethBalance s + aaveBalance s) * n div totalDeposits s"
  let ?s1 = "s\<lparr>userDeposits := (userDeposits s)(a := userDeposits s a - n),
                totalDeposits := totalDeposits s - n\<rparr>"
  from assms(1,3) have nz: "totalDeposits s \<noteq> 0"
    by (auto simp: word_less_nat_alt word_le_nat_alt)
  from share_fits(2) [OF nz assms(4,5)] have ush: "unat ?share = payout s n"
    by (simp add: payout_def)
  with assms(6) have lt: "ethBalance ?s1 < ?share"
    by (simp add: word_less_nat_alt)
  then have "unat (?share - ethBalance s) = payout s n - unat (ethBalance s)"
    using ush by (simp add: unat_sub word_le_nat_alt word_less_nat_alt)
  with assms(8) have "unat (?share - ethBalance s) = unat request" by simp
  then have rq: "?share - ethBalance s = request" by (simp only: word_unat_eq_iff)
  from assms(7) have "aaveBalance ?s1 \<noteq> 0" by simp
  from route_pull [OF lt this, of e] rq assms(9)
  have r: "route e ?share ?s1 = Inl External_revert" by simp
  from assms(1,2,3,4,5) nz r show ?thesis
    by (simp add: withdraw_def getTotalVaultValue_def checked_add_def checked_mul_def
        checked_div_def checked_sub_def and_then_def vault_value_def unat_add_fits)
qed

lemma supply_external_failure:
  assumes "ethBalance s \<noteq> 0"
    and "\<not> weth_deposit e (ethBalance s) \<or> \<not> weth_approve e (ethBalance s) \<or>
         pool_supply e (ethBalance s) (aaveBalance s) = None"
  shows "supplyToAave e a s = Inl External_revert"
  using assms by (auto simp: supplyToAave_def Let_def word_gt_0)

section \<open>Properties of the contract\<close>

subsection \<open>The ledger invariant\<close>

text \<open>
  C4. In every state reachable from a fresh deployment by calls to \<open>deposit\<close>,
  \<open>supplyToAave\<close> and \<open>withdraw\<close> (and also by plain ether transfers and by any
  change of the aToken balance), \<open>totalDeposits\<close> is exactly the sum of
  \<open>userDeposits\<close> over all addresses.
\<close>

theorem principal_sum_invariant:
  "reachable s \<Longrightarrow> principal_sum s = unat (totalDeposits s)"
proof (induction rule: reachable.induct)
  case (deployed eth atok)
  show ?case by (simp add: principal_sum_def fresh_def)
next
  case (after_deposit s a v s' ev)
  then show ?case by (simp add: deposit_keeps_sum)
next
  case (after_supply s e a s' ev)
  from supply_frame [OF after_supply.hyps(2)] after_supply.IH show ?case
    by (simp add: principal_sum_def)
next
  case (after_withdraw s e a n out)
  then show ?case by (simp add: withdraw_keeps_sum)
next
  case (after_receive s v s')
  from receive_frame(1,2) [OF after_receive.hyps(2)] after_receive.IH show ?case
    by (simp add: principal_sum_def)
next
  case (after_accrual s b)
  then show ?case by (simp add: principal_sum_def)
qed

text \<open>The state after one deposit of 5 by address 1 into a fresh vault.\<close>

theorem principal_sum_invariant_witness:
  "reachable \<lparr>userDeposits = (\<lambda>_. 0)(1 := 5), totalDeposits = 5, ethBalance = 5, aaveBalance = 0\<rparr> \<and>
   principal_sum \<lparr>userDeposits = (\<lambda>_. 0)(1 := 5), totalDeposits = 5, ethBalance = 5, aaveBalance = 0\<rparr> = 5"
proof -
  let ?st = "\<lparr>userDeposits = (\<lambda>_. 0)(1 := 5), totalDeposits = 5, ethBalance = 5, aaveBalance = 0\<rparr>"
  have d: "deposit_call 1 5 (fresh 0 0) = Inr (?st, Deposited 1 5)"
    by (simp add: deposit_call_Inr_iff fresh_def)
  have r: "reachable ?st"
    by (rule after_deposit [OF deployed d])
  show ?thesis using r principal_sum_invariant [OF r] by simp
qed

subsection \<open>Withdrawal\<close>

text \<open>
  C3, as the contract has it. For every withdrawal that returns, with \<open>payout =
  floor(totalVaultValue * amount / totalDeposits)\<close> taken at the start of the call: if
  the idle balance is at least the payout, the caller is paid the payout from the idle
  balance in ether, nothing in WETH, and the pool is not touched; otherwise the pool is
  asked for \<open>payout - idle balance\<close> and the caller is paid the whole idle balance in
  ether plus, in WETH, the amount the pool reports as withdrawn, which is
  \<open>payout - idle balance\<close> when the pool hands back what it is asked for. Every
  transfer that is made has been accepted. Which of the two cases applies is decided by
  the comparison of the idle balance with the payout alone.
\<close>

theorem withdraw_routing:
  assumes "withdraw e a n s = Inr out"
  shows
    "(payout s n \<le> unat (ethBalance s) \<longrightarrow>
        unat (ethSent out) = payout s n \<and> wethSent out = 0 \<and>
        aaveBalance (post out) = aaveBalance s \<and>
        unat (ethBalance (post out)) + payout s n = unat (ethBalance s)) \<and>
     (unat (ethBalance s) < payout s n \<longrightarrow>
        (\<exists>request bal'.
           unat request = payout s n - unat (ethBalance s) \<and>
           pool_withdraw e request (aaveBalance s) = Some (wethSent out, bal') \<and>
           ethSent out = ethBalance s \<and>
           aaveBalance (post out) = bal' \<and> ethBalance (post out) = 0 \<and>
           (hands_back e s n \<longrightarrow> wethSent out = request))) \<and>
     (wethSent out \<noteq> 0 \<longrightarrow> weth_transfer e a (wethSent out) = Some True) \<and>
     (ethSent out \<noteq> 0 \<longrightarrow> eth_accepted e a (ethSent out))"
proof (intro conjI impI)
  assume "payout s n \<le> unat (ethBalance s)"
  with withdraw_from_idle [OF assms]
  show "unat (ethSent out) = payout s n" and "wethSent out = 0"
    and "aaveBalance (post out) = aaveBalance s"
    and "unat (ethBalance (post out)) + payout s n = unat (ethBalance s)"
    by simp_all
next
  assume "unat (ethBalance s) < payout s n"
  from withdraw_from_pool [OF assms this] obtain request bal' where
    f: "unat request = payout s n - unat (ethBalance s)"
       "pool_withdraw e request (aaveBalance s) = Some (wethSent out, bal')"
       "ethSent out = ethBalance s" "aaveBalance (post out) = bal'"
       "ethBalance (post out) = 0"
    by blast
  have "wethSent out = request" if "hands_back e s n"
    using that f(1,2) by (auto simp: hands_back_def)
  with f show "\<exists>request bal'.
           unat request = payout s n - unat (ethBalance s) \<and>
           pool_withdraw e request (aaveBalance s) = Some (wethSent out, bal') \<and>
           ethSent out = ethBalance s \<and>
           aaveBalance (post out) = bal' \<and> ethBalance (post out) = 0 \<and>
           (hands_back e s n \<longrightarrow> wethSent out = request)"
    by blast
next
  assume "wethSent out \<noteq> 0"
  then show "weth_transfer e a (wethSent out) = Some True"
    by (rule withdraw_transfers_accepted(1) [OF assms])
next
  assume "ethSent out \<noteq> 0"
  then show "eth_accepted e a (ethSent out)"
    by (rule withdraw_transfers_accepted(2) [OF assms])
qed

text \<open>
  Address 1 holds all 10 units of principal, the vault holds 4 in ether and 16 in
  aTokens: withdrawing 5 is worth 10, of which 6 come from the pool.
\<close>

theorem withdraw_routing_witness:
  "withdraw faithful_env 1 5
     \<lparr>userDeposits = (\<lambda>_. 0)(1 := 10), totalDeposits = 10, ethBalance = 4, aaveBalance = 16\<rparr>
   = Inr \<lparr>post = \<lparr>userDeposits = (\<lambda>_. 0)(1 := 5), totalDeposits = 5, ethBalance = 0, aaveBalance = 10\<rparr>,
          ethSent = 4, wethSent = 6, emitted = Withdrawn 1 5 10\<rparr> \<and>
   (\<exists>request bal'. unat request = 10 - 4 \<and>
      pool_withdraw faithful_env request 16 = Some (6, bal') \<and> bal' = 10 \<and> request = 6) \<and>
   weth_transfer faithful_env 1 6 = Some True \<and> eth_accepted faithful_env 1 4"
proof -
  let ?st = "\<lparr>userDeposits = (\<lambda>_. 0)(1 := 10), totalDeposits = 10, ethBalance = 4, aaveBalance = 16\<rparr>"
  let ?res = "\<lparr>post = \<lparr>userDeposits = (\<lambda>_. 0)(1 := 5), totalDeposits = 5, ethBalance = 0, aaveBalance = 10\<rparr>,
          ethSent = 4, wethSent = 6, emitted = Withdrawn 1 5 10\<rparr>"
  have w: "withdraw faithful_env 1 5 ?st = Inr ?res"
    by (simp add: withdraw_def getTotalVaultValue_def checked_add_def checked_mul_def
        checked_div_def checked_sub_def and_then_def route_def send_weth_def send_eth_def
        faithful_env_def Let_def)
  have p: "payout ?st 5 = 10"
    by (simp add: payout_def vault_value_def)
  have h: "hands_back faithful_env ?st 5"
    by (auto simp: hands_back_def faithful_env_def split: if_splits)
  from withdraw_routing [OF w] p h show ?thesis
    using w by simp
qed

text \<open>
  The vault holds 3 in ether and 17 in aTokens, and the pool keeps a fee of one unit.
  Address 1 withdraws 5 of its 10 units of principal: the payout is 10, the pool is asked
  for 7, and the caller is paid 3 in ether and 6 in WETH, not 7.
\<close>

theorem withdraw_wrapped_part_short:
  "withdraw fee_env 1 5
     \<lparr>userDeposits = (\<lambda>_. 0)(1 := 10), totalDeposits = 10, ethBalance = 3, aaveBalance = 17\<rparr>
   = Inr \<lparr>post = \<lparr>userDeposits = (\<lambda>_. 0)(1 := 5), totalDeposits = 5, ethBalance = 0, aaveBalance = 10\<rparr>,
          ethSent = 3, wethSent = 6, emitted = Withdrawn 1 5 10\<rparr> \<and>
   payout \<lparr>userDeposits = (\<lambda>_. 0)(1 := 10), totalDeposits = 10, ethBalance = 3, aaveBalance = 17\<rparr> 5 = 10 \<and>
   payout \<lparr>userDeposits = (\<lambda>_. 0)(1 := 10), totalDeposits = 10, ethBalance = 3, aaveBalance = 17\<rparr> 5
     - unat (3 :: uint256) = 7 \<and>
   unat (6 :: uint256) \<noteq> 7"
  by (simp add: withdraw_def getTotalVaultValue_def checked_add_def checked_mul_def
        checked_div_def checked_sub_def and_then_def route_def send_weth_def send_eth_def
        faithful_env_def fee_env_def Let_def payout_def vault_value_def)

text \<open>
  C1, as the contract has it. A call to \<open>withdraw\<close> returns only if
  \<open>0 < amount \<le> userDeposits[caller]\<close>. When it returns, with \<open>payout =
  floor(totalVaultValue * amount / totalDeposits)\<close> taken at the start of the call: if
  the payout is at most the idle balance, the value transferred to the caller is the
  payout; otherwise it is the idle balance plus the amount the pool reports for the
  request \<open>payout - idle balance\<close>, and this is the payout exactly when the pool reports
  the amount requested.
\<close>

theorem withdraw_pays_share:
  assumes "withdraw e a n s = Inr out"
  shows "0 < n \<and> n \<le> userDeposits s a \<and>
         payout s n = (unat (ethBalance s) + unat (aaveBalance s)) * unat n div unat (totalDeposits s) \<and>
         (payout s n \<le> unat (ethBalance s) \<longrightarrow>
            value_received (withdraw e a n s) = payout s n) \<and>
         (unat (ethBalance s) < payout s n \<longrightarrow>
            (\<exists>request bal'.
               unat request = payout s n - unat (ethBalance s) \<and>
               pool_withdraw e request (aaveBalance s) = Some (wethSent out, bal') \<and>
               value_received (withdraw e a n s) = unat (ethBalance s) + unat (wethSent out) \<and>
               (value_received (withdraw e a n s) = payout s n \<longleftrightarrow> wethSent out = request)))"
proof (intro conjI impI)
  show "0 < n" and "n \<le> userDeposits s a"
    using assms by (rule withdraw_pre)+
  show "payout s n = (unat (ethBalance s) + unat (aaveBalance s)) * unat n div unat (totalDeposits s)"
    by (simp add: payout_def vault_value_def)
next
  assume "payout s n \<le> unat (ethBalance s)"
  with withdraw_from_idle [OF assms] assms
  show "value_received (withdraw e a n s) = payout s n"
    by (simp add: value_received_def)
next
  assume lt: "unat (ethBalance s) < payout s n"
  from withdraw_from_pool [OF assms this] obtain request bal' where
    f: "unat request = payout s n - unat (ethBalance s)"
       "pool_withdraw e request (aaveBalance s) = Some (wethSent out, bal')"
       "ethSent out = ethBalance s"
    by blast
  from f(3) assms
  have v: "value_received (withdraw e a n s) = unat (ethBalance s) + unat (wethSent out)"
    by (simp add: value_received_def)
  have "value_received (withdraw e a n s) = payout s n \<longleftrightarrow> unat (wethSent out) = unat request"
    using v f(1) lt by auto
  then have "value_received (withdraw e a n s) = payout s n \<longleftrightarrow> wethSent out = request"
    by (simp only: word_unat_eq_iff)
  with f v show "\<exists>request bal'.
               unat request = payout s n - unat (ethBalance s) \<and>
               pool_withdraw e request (aaveBalance s) = Some (wethSent out, bal') \<and>
               value_received (withdraw e a n s) = unat (ethBalance s) + unat (wethSent out) \<and>
               (value_received (withdraw e a n s) = payout s n \<longleftrightarrow> wethSent out = request)"
    by blast
qed

text \<open>
  Address 1 holds all 10 units of principal. With 12 in ether and 8 in aTokens a
  withdrawal of 5 is paid 10 from the idle balance; with 4 in ether and 16 in aTokens it
  is paid 4 in ether and 6 in WETH.
\<close>

theorem withdraw_pays_share_witness:
  "value_received (withdraw faithful_env 1 5
     \<lparr>userDeposits = (\<lambda>_. 0)(1 := 10), totalDeposits = 10, ethBalance = 12, aaveBalance = 8\<rparr>) = 10 \<and>
   value_received (withdraw faithful_env 1 5
     \<lparr>userDeposits = (\<lambda>_. 0)(1 := 10), totalDeposits = 10, ethBalance = 4, aaveBalance = 16\<rparr>) = 10"
proof -
  let ?st = "\<lparr>userDeposits = (\<lambda>_. 0)(1 := 10), totalDeposits = 10, ethBalance = 12, aaveBalance = 8\<rparr>"
  let ?res = "\<lparr>post = \<lparr>userDeposits = (\<lambda>_. 0)(1 := 5), totalDeposits = 5, ethBalance = 2, aaveBalance = 8\<rparr>,
          ethSent = 10, wethSent = 0, emitted = Withdrawn 1 5 10\<rparr>"
  let ?st2 = "\<lparr>userDeposits = (\<lambda>_. 0)(1 := 10), totalDeposits = 10, ethBalance = 4, aaveBalance = 16\<rparr>"
  let ?res2 = "\<lparr>post = \<lparr>userDeposits = (\<lambda>_. 0)(1 := 5), totalDeposits = 5, ethBalance = 0, aaveBalance = 10\<rparr>,
          ethSent = 4, wethSent = 6, emitted = Withdrawn 1 5 10\<rparr>"
  have w: "withdraw faithful_env 1 5 ?st = Inr ?res"
    by (simp add: withdraw_def getTotalVaultValue_def checked_add_def checked_mul_def
        checked_div_def checked_sub_def and_then_def route_def send_weth_def send_eth_def
        faithful_env_def Let_def)
  have w2: "withdraw faithful_env 1 5 ?st2 = Inr ?res2"
    by (simp add: withdraw_def getTotalVaultValue_def checked_add_def checked_mul_def
        checked_div_def checked_sub_def and_then_def route_def send_weth_def send_eth_def
        faithful_env_def Let_def)
  have p: "payout ?st 5 = 10" and p2: "payout ?st2 5 = 10"
    by (simp_all add: payout_def vault_value_def)
  from withdraw_pays_share [OF w] p
  have 1: "value_received (withdraw faithful_env 1 5 ?st) = 10" by simp
  from withdraw_pays_share [OF w2] p2 obtain request bal' where
    "value_received (withdraw faithful_env 1 5 ?st2) = unat (ethBalance ?st2) + unat (wethSent ?res2)"
    by auto
  then have 2: "value_received (withdraw faithful_env 1 5 ?st2) = 10" by simp
  from 1 2 show ?thesis by simp
qed

text \<open>
  The second of these calls against a pool that keeps a fee of one unit: the call
  returns, the caller holds 5 of the 10 units of principal it had, and receives 4 in
  ether and 5 in WETH, one less than the share of 10.
\<close>

theorem withdraw_fee_pool_pays_less:
  "(0::uint256) < 5 \<and>
   5 \<le> userDeposits \<lparr>userDeposits = (\<lambda>_. 0)(1 := 10), totalDeposits = 10, ethBalance = 4, aaveBalance = 16\<rparr> 1 \<and>
   withdraw fee_env 1 5
     \<lparr>userDeposits = (\<lambda>_. 0)(1 := 10), totalDeposits = 10, ethBalance = 4, aaveBalance = 16\<rparr>
   = Inr \<lparr>post = \<lparr>userDeposits = (\<lambda>_. 0)(1 := 5), totalDeposits = 5, ethBalance = 0, aaveBalance = 10\<rparr>,
          ethSent = 4, wethSent = 5, emitted = Withdrawn 1 5 10\<rparr> \<and>
   value_received (withdraw fee_env 1 5
     \<lparr>userDeposits = (\<lambda>_. 0)(1 := 10), totalDeposits = 10, ethBalance = 4, aaveBalance = 16\<rparr>) = 9 \<and>
   (unat (4::uint256) + unat (16::uint256)) * unat (5::uint256) div unat (10::uint256) = 10 \<and>
   value_received (withdraw fee_env 1 5
     \<lparr>userDeposits = (\<lambda>_. 0)(1 := 10), totalDeposits = 10, ethBalance = 4, aaveBalance = 16\<rparr>)
   \<noteq> (unat (4::uint256) + unat (16::uint256)) * unat (5::uint256) div unat (10::uint256)"
  by (simp add: withdraw_def getTotalVaultValue_def checked_add_def checked_mul_def
        checked_div_def checked_sub_def and_then_def route_def send_weth_def send_eth_def
        faithful_env_def fee_env_def Let_def value_received_def)

text \<open>
  A call that aborts transfers nothing: address 1 holds 5 units in a vault worth 5, asks
  for all of them, and its code refuses the ether.
\<close>

lemma withdraw_refused_pays_nothing:
  "withdraw (faithful_env\<lparr>eth_accepted := (\<lambda>_ _. False)\<rparr>) 1 5
     \<lparr>userDeposits = (\<lambda>_. 0)(1 := 5), totalDeposits = 5, ethBalance = 5, aaveBalance = 0\<rparr>
     = Inl (Require ''ETH transfer failed'') \<and>
   value_received (withdraw (faithful_env\<lparr>eth_accepted := (\<lambda>_ _. False)\<rparr>) 1 5
     \<lparr>userDeposits = (\<lambda>_. 0)(1 := 5), totalDeposits = 5, ethBalance = 5, aaveBalance = 0\<rparr>) = 0 \<and>
   payout \<lparr>userDeposits = (\<lambda>_. 0)(1 := 5), totalDeposits = 5, ethBalance = 5, aaveBalance = 0\<rparr> 5 = 5"
  by (simp add: withdraw_def getTotalVaultValue_def checked_add_def checked_mul_def
        checked_div_def checked_sub_def and_then_def route_def send_weth_def send_eth_def
        faithful_env_def Let_def value_received_def payout_def vault_value_def)

text \<open>
  C2. A call to \<open>withdraw\<close> with \<open>amount = 0\<close> fails with "Must withdraw more than 0"
  (the spec's \<open>InvalidAmount\<close>), and one with \<open>amount > userDeposits[caller]\<close> fails with
  "Insufficient balance". A call returns only if every collaborator it turned to has
  answered: the pool has reported an amount for the request, \<open>weth.transfer\<close> has
  returned true, and the ether has been accepted; so a revert of the pool, a false or
  reverting \<open>weth.transfer\<close>, and a refused ether transfer each make the call fail. A
  call fails with one of seven errors only, and a failed call is rolled back by the
  platform: \<open>userDeposits\<close>, \<open>totalDeposits\<close> and both balances are what they were
  before it, and nothing has been transferred.
\<close>

theorem withdraw_failure_atomic:
  "(amount = 0 \<longrightarrow> withdraw e a amount s = Inl (Require ''Must withdraw more than 0'')) \<and>
   (userDeposits s a < amount \<longrightarrow> withdraw e a amount s = Inl (Require ''Insufficient balance'')) \<and>
   (\<forall>out. withdraw e a amount s = Inr out \<longrightarrow>
      (unat (ethBalance s) < payout s amount \<longrightarrow>
         (\<exists>request bal'. unat request = payout s amount - unat (ethBalance s) \<and>
            pool_withdraw e request (aaveBalance s) = Some (wethSent out, bal'))) \<and>
      (wethSent out \<noteq> 0 \<longrightarrow> weth_transfer e a (wethSent out) = Some True) \<and>
      (ethSent out \<noteq> 0 \<longrightarrow> eth_accepted e a (ethSent out))) \<and>
   (\<forall>err. withdraw e a amount s = Inl err \<longrightarrow>
      (err = Require ''Must withdraw more than 0'' \<or> err = Require ''Insufficient balance'' \<or>
       err = Panic_overflow \<or> err = Panic_div_zero \<or> err = External_revert \<or>
       err = Require ''WETH transfer failed'' \<or> err = Require ''ETH transfer failed'') \<and>
      state_after s (withdraw e a amount s) post = s \<and>
      value_received (withdraw e a amount s) = 0)"
proof (intro conjI impI allI)
  assume "amount = 0"
  then show "withdraw e a amount s = Inl (Require ''Must withdraw more than 0'')"
    by (simp add: withdraw_def)
next
  assume lt: "userDeposits s a < amount"
  then have "amount \<noteq> 0" by (auto simp: word_less_nat_alt)
  with lt show "withdraw e a amount s = Inl (Require ''Insufficient balance'')"
    by (simp add: withdraw_def word_gt_0 not_le)
next
  fix out
  assume w: "withdraw e a amount s = Inr out"
  show "\<exists>request bal'. unat request = payout s amount - unat (ethBalance s) \<and>
            pool_withdraw e request (aaveBalance s) = Some (wethSent out, bal')"
    if "unat (ethBalance s) < payout s amount"
    using withdraw_from_pool [OF w that] by blast
  show "weth_transfer e a (wethSent out) = Some True" if "wethSent out \<noteq> 0"
    using that by (rule withdraw_transfers_accepted(1) [OF w])
  show "eth_accepted e a (ethSent out)" if "ethSent out \<noteq> 0"
    using that by (rule withdraw_transfers_accepted(2) [OF w])
next
  fix err
  assume f: "withdraw e a amount s = Inl err"
  show "err = Require ''Must withdraw more than 0'' \<or> err = Require ''Insufficient balance'' \<or>
       err = Panic_overflow \<or> err = Panic_div_zero \<or> err = External_revert \<or>
       err = Require ''WETH transfer failed'' \<or> err = Require ''ETH transfer failed''"
    using f by (rule withdraw_error)
  from f show "state_after s (withdraw e a amount s) post = s"
    by (simp add: state_after_def)
  from f show "value_received (withdraw e a amount s) = 0"
    by (simp add: value_received_def)
qed

text \<open>
  Address 1 holds all 10 units of principal in a vault with 4 in ether and 16 in
  aTokens. Withdrawing 0 and withdrawing 11 are rejected. A withdrawal of 5 needs 6 from
  the pool: it fails when the pool reverts, when \<open>weth.transfer\<close> returns false or
  reverts, and when the caller's code refuses the ether, each time after the ledger has
  been updated in lines 102-103; the state is the one before the call each time.
\<close>

theorem withdraw_failure_atomic_witness:
  "withdraw faithful_env 1 0
     \<lparr>userDeposits = (\<lambda>_. 0)(1 := 10), totalDeposits = 10, ethBalance = 4, aaveBalance = 16\<rparr>
     = Inl (Require ''Must withdraw more than 0'') \<and>
   withdraw faithful_env 1 11
     \<lparr>userDeposits = (\<lambda>_. 0)(1 := 10), totalDeposits = 10, ethBalance = 4, aaveBalance = 16\<rparr>
     = Inl (Require ''Insufficient balance'') \<and>
   withdraw (faithful_env\<lparr>pool_withdraw := (\<lambda>_ _. None)\<rparr>) 1 5
     \<lparr>userDeposits = (\<lambda>_. 0)(1 := 10), totalDeposits = 10, ethBalance = 4, aaveBalance = 16\<rparr>
     = Inl External_revert \<and>
   withdraw (faithful_env\<lparr>weth_transfer := (\<lambda>_ _. Some False)\<rparr>) 1 5
     \<lparr>userDeposits = (\<lambda>_. 0)(1 := 10), totalDeposits = 10, ethBalance = 4, aaveBalance = 16\<rparr>
     = Inl (Require ''WETH transfer failed'') \<and>
   withdraw (faithful_env\<lparr>weth_transfer := (\<lambda>_ _. None)\<rparr>) 1 5
     \<lparr>userDeposits = (\<lambda>_. 0)(1 := 10), totalDeposits = 10, ethBalance = 4, aaveBalance = 16\<rparr>
     = Inl External_revert \<and>
   withdraw (faithful_env\<lparr>eth_accepted := (\<lambda>_ _. False)\<rparr>) 1 5
     \<lparr>userDeposits = (\<lambda>_. 0)(1 := 10), totalDeposits = 10, ethBalance = 4, aaveBalance = 16\<rparr>
     = Inl (Require ''ETH transfer failed'') \<and>
   state_after \<lparr>userDeposits = (\<lambda>_. 0)(1 := 10), totalDeposits = 10, ethBalance = 4, aaveBalance = 16\<rparr>
     (withdraw (faithful_env\<lparr>eth_accepted := (\<lambda>_ _. False)\<rparr>) 1 5
        \<lparr>userDeposits = (\<lambda>_. 0)(1 := 10), totalDeposits = 10, ethBalance = 4, aaveBalance = 16\<rparr>) post
     = \<lparr>userDeposits = (\<lambda>_. 0)(1 := 10), totalDeposits = 10, ethBalance = 4, aaveBalance = 16\<rparr> \<and>
   value_received (withdraw (faithful_env\<lparr>eth_accepted := (\<lambda>_ _. False)\<rparr>) 1 5
        \<lparr>userDeposits = (\<lambda>_. 0)(1 := 10), totalDeposits = 10, ethBalance = 4, aaveBalance = 16\<rparr>) = 0 \<and>
   weth_transfer faithful_env 1 6 = Some True"
proof -
  let ?st = "\<lparr>userDeposits = (\<lambda>_. 0)(1 := 10), totalDeposits = 10, ethBalance = 4, aaveBalance = 16\<rparr>"
  let ?res = "\<lparr>post = \<lparr>userDeposits = (\<lambda>_. 0)(1 := 5), totalDeposits = 5, ethBalance = 0, aaveBalance = 10\<rparr>,
          ethSent = 4, wethSent = 6, emitted = Withdrawn 1 5 10\<rparr>"
  let ?refuse = "faithful_env\<lparr>eth_accepted := (\<lambda>_ _. False)\<rparr>"
  have z: "withdraw faithful_env 1 0 ?st = Inl (Require ''Must withdraw more than 0'')"
    using withdraw_failure_atomic [of 0 faithful_env 1 ?st] by simp
  have i: "withdraw faithful_env 1 11 ?st = Inl (Require ''Insufficient balance'')"
    using withdraw_failure_atomic [of 11 faithful_env 1 ?st] by simp
  have p: "withdraw (faithful_env\<lparr>pool_withdraw := (\<lambda>_ _. None)\<rparr>) 1 5 ?st = Inl External_revert"
    by (simp add: withdraw_def getTotalVaultValue_def checked_add_def checked_mul_def
        checked_div_def checked_sub_def and_then_def route_def send_weth_def send_eth_def
        faithful_env_def Let_def)
  have t: "withdraw (faithful_env\<lparr>weth_transfer := (\<lambda>_ _. Some False)\<rparr>) 1 5 ?st
      = Inl (Require ''WETH transfer failed'')"
    by (simp add: withdraw_def getTotalVaultValue_def checked_add_def checked_mul_def
        checked_div_def checked_sub_def and_then_def route_def send_weth_def send_eth_def
        faithful_env_def Let_def)
  have u: "withdraw (faithful_env\<lparr>weth_transfer := (\<lambda>_ _. None)\<rparr>) 1 5 ?st = Inl External_revert"
    by (simp add: withdraw_def getTotalVaultValue_def checked_add_def checked_mul_def
        checked_div_def checked_sub_def and_then_def route_def send_weth_def send_eth_def
        faithful_env_def Let_def)
  have f: "withdraw ?refuse 1 5 ?st = Inl (Require ''ETH transfer failed'')"
    by (simp add: withdraw_def getTotalVaultValue_def checked_add_def checked_mul_def
        checked_div_def checked_sub_def and_then_def route_def send_weth_def send_eth_def
        faithful_env_def Let_def)
  have r: "state_after ?st (withdraw ?refuse 1 5 ?st) post = ?st
      \<and> value_received (withdraw ?refuse 1 5 ?st) = 0"
    using withdraw_failure_atomic [of 5 ?refuse 1 ?st] f by blast
  have w: "withdraw faithful_env 1 5 ?st = Inr ?res"
    by (simp add: withdraw_def getTotalVaultValue_def checked_add_def checked_mul_def
        checked_div_def checked_sub_def and_then_def route_def send_weth_def send_eth_def
        faithful_env_def Let_def)
  have "wethSent ?res \<noteq> 0 \<longrightarrow> weth_transfer faithful_env 1 (wethSent ?res) = Some True"
    using withdraw_failure_atomic [of 5 faithful_env 1 ?st] w by blast
  then have k: "weth_transfer faithful_env 1 6 = Some True" by simp
  from z i p t u f r k show ?thesis by blast
qed

subsection \<open>Deposit\<close>

text \<open>
  C5, as the contract has it. A call to \<open>deposit\<close> with no value attached fails with
  "Must deposit more than 0" (the spec's \<open>InvalidAmount\<close>). With a value \<open>v > 0\<close>
  attached it returns exactly when \<open>userDeposits[caller] + v\<close> and
  \<open>totalDeposits + v\<close> both stay below \<open>2 ^ 256\<close>, and then the caller's record and
  the total have each grown by exactly \<open>v\<close>, the other records and the aToken balance
  are untouched and the ether stays in the contract; otherwise the checked addition
  aborts the call. The state \<open>s\<close> is the one the body runs in, with the attached value
  already part of the balance.
\<close>

theorem deposit_books_amount:
  "(v = 0 \<longrightarrow> deposit a v s = Inl (Require ''Must deposit more than 0'')) \<and>
   (v \<noteq> 0 \<and> unat (userDeposits s a) + unat v < 2 ^ 256 \<and> unat (totalDeposits s) + unat v < 2 ^ 256 \<longrightarrow>
      (\<exists>s'. deposit a v s = Inr (s', Deposited a v) \<and>
            unat (userDeposits s' a) = unat (userDeposits s a) + unat v \<and>
            unat (totalDeposits s') = unat (totalDeposits s) + unat v \<and>
            (\<forall>b. b \<noteq> a \<longrightarrow> userDeposits s' b = userDeposits s b) \<and>
            aaveBalance s' = aaveBalance s \<and>
            ethBalance s' = ethBalance s)) \<and>
   (v \<noteq> 0 \<and> \<not> (unat (userDeposits s a) + unat v < 2 ^ 256 \<and> unat (totalDeposits s) + unat v < 2 ^ 256) \<longrightarrow>
      deposit a v s = Inl Panic_overflow)"
proof (intro conjI impI)
  assume "v = 0"
  then show "deposit a v s = Inl (Require ''Must deposit more than 0'')"
    by (simp add: deposit_zero)
next
  assume h: "v \<noteq> 0 \<and> unat (userDeposits s a) + unat v < 2 ^ 256 \<and> unat (totalDeposits s) + unat v < 2 ^ 256"
  let ?st' = "s\<lparr>userDeposits := (userDeposits s)(a := userDeposits s a + v),
            totalDeposits := totalDeposits s + v\<rparr>"
  from h have "deposit a v s = Inr (?st', Deposited a v)"
    by (simp add: deposit_fits)
  moreover from h have "unat (userDeposits ?st' a) = unat (userDeposits s a) + unat v"
    by (simp add: unat_add_fits)
  moreover from h have "unat (totalDeposits ?st') = unat (totalDeposits s) + unat v"
    by (simp add: unat_add_fits)
  ultimately show "\<exists>s'. deposit a v s = Inr (s', Deposited a v) \<and>
            unat (userDeposits s' a) = unat (userDeposits s a) + unat v \<and>
            unat (totalDeposits s') = unat (totalDeposits s) + unat v \<and>
            (\<forall>b. b \<noteq> a \<longrightarrow> userDeposits s' b = userDeposits s b) \<and>
            aaveBalance s' = aaveBalance s \<and>
            ethBalance s' = ethBalance s"
    by (intro exI [of _ ?st']) simp
next
  assume "v \<noteq> 0 \<and> \<not> (unat (userDeposits s a) + unat v < 2 ^ 256 \<and> unat (totalDeposits s) + unat v < 2 ^ 256)"
  then show "deposit a v s = Inl Panic_overflow"
    by (simp add: deposit_overflow)
qed

text \<open>Address 1 calls with nothing attached, then with 5, at a fresh address.\<close>

theorem deposit_books_amount_witness:
  "deposit 1 0 (fresh 0 0) = Inl (Require ''Must deposit more than 0'') \<and>
   (\<exists>s'. deposit 1 5 (fresh 5 0) = Inr (s', Deposited 1 5) \<and>
         unat (userDeposits s' 1) = 5 \<and> unat (totalDeposits s') = 5 \<and> ethBalance s' = 5)"
proof -
  have z: "deposit 1 0 (fresh 0 0) = Inl (Require ''Must deposit more than 0'')"
    using deposit_books_amount [of 0 1 "fresh 0 0"] by simp
  have "\<exists>s'. deposit 1 5 (fresh 5 0) = Inr (s', Deposited 1 5) \<and>
            unat (userDeposits s' 1) = unat (userDeposits (fresh 5 0) 1) + unat (5::uint256) \<and>
            unat (totalDeposits s') = unat (totalDeposits (fresh 5 0)) + unat (5::uint256) \<and>
            (\<forall>b. b \<noteq> 1 \<longrightarrow> userDeposits s' b = userDeposits (fresh 5 0) b) \<and>
            aaveBalance s' = aaveBalance (fresh 5 0) \<and>
            ethBalance s' = ethBalance (fresh 5 0)"
    using deposit_books_amount [of 5 1 "fresh 5 0"] by (simp add: fresh_def)
  then have "\<exists>s'. deposit 1 5 (fresh 5 0) = Inr (s', Deposited 1 5) \<and>
         unat (userDeposits s' 1) = 5 \<and> unat (totalDeposits s') = 5 \<and> ethBalance s' = 5"
    by (auto simp: fresh_def)
  with z show ?thesis by blast
qed

text \<open>
  Address 1 has deposited \<open>2 ^ 256 - 1\<close> and the ether has been supplied to the pool.
  A further deposit of 1 by address 2 is credited, overflows \<open>totalDeposits\<close> in the
  body and aborts.
\<close>

theorem deposit_positive_amount_aborts:
  "reachable \<lparr>userDeposits = (\<lambda>_. 0)(1 := 115792089237316195423570985008687907853269984665640564039457584007913129639935),
              totalDeposits = 115792089237316195423570985008687907853269984665640564039457584007913129639935,
              ethBalance = 0,
              aaveBalance = 115792089237316195423570985008687907853269984665640564039457584007913129639935\<rparr> \<and>
   (0::uint256) < 1 \<and>
   credit 1
     \<lparr>userDeposits = (\<lambda>_. 0)(1 := 115792089237316195423570985008687907853269984665640564039457584007913129639935),
      totalDeposits = 115792089237316195423570985008687907853269984665640564039457584007913129639935,
      ethBalance = 0,
      aaveBalance = 115792089237316195423570985008687907853269984665640564039457584007913129639935\<rparr>
   = Inr \<lparr>userDeposits = (\<lambda>_. 0)(1 := 115792089237316195423570985008687907853269984665640564039457584007913129639935),
      totalDeposits = 115792089237316195423570985008687907853269984665640564039457584007913129639935,
      ethBalance = 1,
      aaveBalance = 115792089237316195423570985008687907853269984665640564039457584007913129639935\<rparr> \<and>
   deposit 2 1
     \<lparr>userDeposits = (\<lambda>_. 0)(1 := 115792089237316195423570985008687907853269984665640564039457584007913129639935),
      totalDeposits = 115792089237316195423570985008687907853269984665640564039457584007913129639935,
      ethBalance = 1,
      aaveBalance = 115792089237316195423570985008687907853269984665640564039457584007913129639935\<rparr>
   = Inl Panic_overflow \<and>
   deposit_call 2 1
     \<lparr>userDeposits = (\<lambda>_. 0)(1 := 115792089237316195423570985008687907853269984665640564039457584007913129639935),
      totalDeposits = 115792089237316195423570985008687907853269984665640564039457584007913129639935,
      ethBalance = 0,
      aaveBalance = 115792089237316195423570985008687907853269984665640564039457584007913129639935\<rparr>
   = Inl Panic_overflow"
proof -
  let ?m = "115792089237316195423570985008687907853269984665640564039457584007913129639935 :: uint256"
  let ?st1 = "\<lparr>userDeposits = (\<lambda>_. 0)(1 := ?m), totalDeposits = ?m, ethBalance = ?m, aaveBalance = 0\<rparr>"
  let ?st2 = "\<lparr>userDeposits = (\<lambda>_. 0)(1 := ?m), totalDeposits = ?m, ethBalance = 0, aaveBalance = ?m\<rparr>"
  let ?st3 = "\<lparr>userDeposits = (\<lambda>_. 0)(1 := ?m), totalDeposits = ?m, ethBalance = 1, aaveBalance = ?m\<rparr>"
  have d: "deposit_call 1 ?m (fresh 0 0) = Inr (?st1, Deposited 1 ?m)"
    by (simp add: deposit_call_Inr_iff fresh_def)
  have sp: "supplyToAave faithful_env 3 ?st1 = Inr (?st2, SuppliedToAave ?m 3)"
    by (simp add: supplyToAave_def faithful_env_def Let_def)
  have r: "reachable ?st2"
    by (rule after_supply [OF after_deposit [OF deployed d] sp])
  have c: "credit 1 ?st2 = Inr ?st3"
    by (simp add: credit_def)
  have b: "deposit 2 1 ?st3 = Inl Panic_overflow"
    by (simp add: deposit_def checked_add_def and_then_def)
  have f: "deposit_call 2 1 ?st2 = Inl Panic_overflow"
    by (simp add: deposit_call_def c b and_then_def)
  from r c b f show ?thesis by simp
qed

subsection \<open>Valuation queries\<close>

text \<open>
  C6, as the contract has it. The queries return values and no state. For every state
  and address \<open>d\<close>: when \<open>totalDeposits = 0\<close>, or when the vault value and its product
  with \<open>userDeposits[d]\<close> are both below \<open>2 ^ 256\<close>, \<open>getUserValue\<close> returns the
  spec's \<open>userValue\<close> (0 if \<open>totalDeposits = 0\<close>, else
  \<open>floor(totalVaultValue * userDeposits[d] / totalDeposits)\<close>) and \<open>getUserInterest\<close>
  returns \<open>max(0, userValue - userDeposits[d])\<close>; in every other state both abort with
  an arithmetic panic.
\<close>

theorem valuation_queries:
  "(totalDeposits s = 0 \<or>
      (vault_value s < 2 ^ 256 \<and> vault_value s * unat (userDeposits s d) < 2 ^ 256) \<longrightarrow>
      (\<exists>v i. getUserValue s d = Inr v \<and> unat v = userValue_spec s d \<and>
             getUserInterest s d = Inr i \<and> unat i = userInterest_spec s d)) \<and>
   (\<not> (totalDeposits s = 0 \<or>
      (vault_value s < 2 ^ 256 \<and> vault_value s * unat (userDeposits s d) < 2 ^ 256)) \<longrightarrow>
      getUserValue s d = Inl Panic_overflow \<and> getUserInterest s d = Inl Panic_overflow)"
proof (intro conjI impI)
  assume f: "totalDeposits s = 0 \<or>
      (vault_value s < 2 ^ 256 \<and> vault_value s * unat (userDeposits s d) < 2 ^ 256)"
  from getUserValue_fits [OF f] getUserInterest_fits [OF f]
  show "\<exists>v i. getUserValue s d = Inr v \<and> unat v = userValue_spec s d \<and>
             getUserInterest s d = Inr i \<and> unat i = userInterest_spec s d"
    by blast
next
  assume n: "\<not> (totalDeposits s = 0 \<or>
      (vault_value s < 2 ^ 256 \<and> vault_value s * unat (userDeposits s d) < 2 ^ 256))"
  then have "totalDeposits s \<noteq> 0"
    and "\<not> (vault_value s < 2 ^ 256 \<and> vault_value s * unat (userDeposits s d) < 2 ^ 256)"
    by simp_all
  then show "getUserValue s d = Inl Panic_overflow" and "getUserInterest s d = Inl Panic_overflow"
    by (rule queries_overflow)+
qed

text \<open>
  Addresses 1 and 2 hold 10 units of principal each and the vault is worth 22: each is
  valued at 11, with an interest of 1.
\<close>

theorem valuation_queries_witness:
  "getUserValue \<lparr>userDeposits = (\<lambda>_. 0)(1 := 10, 2 := 10), totalDeposits = 20,
                  ethBalance = 2, aaveBalance = 20\<rparr> 1 = Inr 11 \<and>
   getUserInterest \<lparr>userDeposits = (\<lambda>_. 0)(1 := 10, 2 := 10), totalDeposits = 20,
                  ethBalance = 2, aaveBalance = 20\<rparr> 1 = Inr 1 \<and>
   userValue_spec \<lparr>userDeposits = (\<lambda>_. 0)(1 := 10, 2 := 10), totalDeposits = 20,
                  ethBalance = 2, aaveBalance = 20\<rparr> 1 = 11 \<and>
   userInterest_spec \<lparr>userDeposits = (\<lambda>_. 0)(1 := 10, 2 := 10), totalDeposits = 20,
                  ethBalance = 2, aaveBalance = 20\<rparr> 1 = 1"
proof -
  let ?s = "\<lparr>userDeposits = (\<lambda>_. 0)(1 := 10, 2 := 10), totalDeposits = 20,
                  ethBalance = 2, aaveBalance = 20\<rparr>"
  have f: "totalDeposits ?s = 0 \<or>
      (vault_value ?s < 2 ^ 256 \<and> vault_value ?s * unat (userDeposits ?s 1) < 2 ^ 256)"
    by (simp add: vault_value_def)
  have uv: "userValue_spec ?s 1 = 11"
    by (simp add: userValue_spec_def vault_value_def)
  have ui: "userInterest_spec ?s 1 = 1"
    by (simp add: userInterest_spec_alt uv)
  from valuation_queries [of ?s 1] f obtain v i where
    r: "getUserValue ?s 1 = Inr v" "unat v = userValue_spec ?s 1"
       "getUserInterest ?s 1 = Inr i" "unat i = userInterest_spec ?s 1"
    by blast
  from r(2) uv have "unat v = unat (11 :: uint256)" by simp
  then have v: "v = 11" by (simp only: word_unat_eq_iff)
  from r(4) ui have "unat i = unat (1 :: uint256)" by simp
  then have i: "i = 1" by (simp only: word_unat_eq_iff)
  from r v i uv ui show ?thesis by simp
qed

text \<open>
  Address 1 has deposited \<open>2 ^ 128\<close> into a fresh vault: the product of the vault value
  and its principal is \<open>2 ^ 256\<close>, and both queries abort.
\<close>

theorem valuation_queries_abort:
  "reachable \<lparr>userDeposits = (\<lambda>_. 0)(1 := 340282366920938463463374607431768211456),
              totalDeposits = 340282366920938463463374607431768211456,
              ethBalance = 340282366920938463463374607431768211456, aaveBalance = 0\<rparr> \<and>
   getUserValue \<lparr>userDeposits = (\<lambda>_. 0)(1 := 340282366920938463463374607431768211456),
              totalDeposits = 340282366920938463463374607431768211456,
              ethBalance = 340282366920938463463374607431768211456, aaveBalance = 0\<rparr> 1
     = Inl Panic_overflow \<and>
   getUserInterest \<lparr>userDeposits = (\<lambda>_. 0)(1 := 340282366920938463463374607431768211456),
              totalDeposits = 340282366920938463463374607431768211456,
              ethBalance = 340282366920938463463374607431768211456, aaveBalance = 0\<rparr> 1
     = Inl Panic_overflow"
proof -
  let ?m = "340282366920938463463374607431768211456 :: uint256"
  let ?st = "\<lparr>userDeposits = (\<lambda>_. 0)(1 := ?m), totalDeposits = ?m, ethBalance = ?m, aaveBalance = 0\<rparr>"
  have d: "deposit_call 1 ?m (fresh 0 0) = Inr (?st, Deposited 1 ?m)"
    by (simp add: deposit_call_Inr_iff fresh_def)
  have r: "reachable ?st"
    by (rule after_deposit [OF deployed d])
  have v: "getUserValue ?st 1 = Inl Panic_overflow"
    by (simp add: getUserValue_def getTotalVaultValue_def checked_add_def checked_mul_def and_then_def)
  have i: "getUserInterest ?st 1 = Inl Panic_overflow"
    by (simp add: getUserInterest_def getTotalVaultValue_def checked_add_def checked_mul_def and_then_def)
  from r v i show ?thesis by simp
qed

text \<open>
  C9, as the contract has it. In every state with \<open>totalDeposits = 0\<close> and for every
  address, \<open>getUserValue\<close> and \<open>getUserInterest\<close> return 0, and no query fails with
  a division by zero. \<open>getTotalVaultValue\<close> is not guarded: it returns the ether
  balance plus the aToken balance when that sum is below \<open>2 ^ 256\<close> and aborts with an
  arithmetic panic otherwise. Its result is 0 exactly when both balances are 0, as in a
  vault that was just deployed at an empty address.
\<close>

theorem empty_ledger_queries:
  "totalDeposits s = 0 \<Longrightarrow>
     getUserValue s d = Inr 0 \<and> getUserInterest s d = Inr 0 \<and>
     getTotalVaultValue s \<noteq> Inl Panic_div_zero \<and>
     (vault_value s < 2 ^ 256 \<longrightarrow>
        (\<exists>t. getTotalVaultValue s = Inr t \<and> unat t = unat (ethBalance s) + unat (aaveBalance s))) \<and>
     (\<not> vault_value s < 2 ^ 256 \<longrightarrow> getTotalVaultValue s = Inl Panic_overflow) \<and>
     (getTotalVaultValue s = Inr 0 \<longleftrightarrow> ethBalance s = 0 \<and> aaveBalance s = 0)"
proof (intro conjI impI)
  assume z: "totalDeposits s = 0"
  show "getUserValue s d = Inr 0" using z by (simp add: getUserValue_def)
  show "getUserInterest s d = Inr 0" using z by (simp add: getUserInterest_def)
  show "getTotalVaultValue s \<noteq> Inl Panic_div_zero"
    using getTotalVaultValue_cases [of s] by auto
  show "\<exists>t. getTotalVaultValue s = Inr t \<and> unat t = unat (ethBalance s) + unat (aaveBalance s)"
    if "vault_value s < 2 ^ 256"
    using total_value_query(1) [OF that] by (simp add: vault_value_def)
  show "getTotalVaultValue s = Inl Panic_overflow" if "\<not> vault_value s < 2 ^ 256"
    using that by (rule total_value_query(2))
  show "getTotalVaultValue s = Inr 0 \<longleftrightarrow> ethBalance s = 0 \<and> aaveBalance s = 0"
  proof
    assume "getTotalVaultValue s = Inr 0"
    then have "vault_value s < 2 ^ 256" and "ethBalance s + aaveBalance s = 0"
      by (simp_all add: getTotalVaultValue_Inr_iff)
    then have "vault_value s = 0"
      using unat_total_value [of s] by simp
    then show "ethBalance s = 0 \<and> aaveBalance s = 0"
      by (simp add: vault_value_def unat_eq_zero)
  next
    assume "ethBalance s = 0 \<and> aaveBalance s = 0"
    then show "getTotalVaultValue s = Inr 0"
      by (simp add: getTotalVaultValue_def checked_add_def)
  qed
qed

text \<open>A vault deployed at an empty address, and one deployed at an address holding 3 and 4.\<close>

theorem empty_ledger_queries_witness:
  "totalDeposits (fresh 0 0) = 0 \<and>
   getUserValue (fresh 0 0) 1 = Inr 0 \<and> getUserInterest (fresh 0 0) 1 = Inr 0 \<and>
   getTotalVaultValue (fresh 0 0) = Inr 0 \<and>
   (\<exists>t. getTotalVaultValue (fresh 3 4) = Inr t \<and> unat t = 7)"
proof -
  have z: "totalDeposits (fresh 0 0) = 0" by (simp add: fresh_def)
  have z': "totalDeposits (fresh 3 4) = 0" by (simp add: fresh_def)
  have f: "vault_value (fresh 3 4) < 2 ^ 256" by (simp add: vault_value_def fresh_def)
  from empty_ledger_queries [OF z', of 1] f
  have "\<exists>t. getTotalVaultValue (fresh 3 4) = Inr t \<and>
            unat t = unat (ethBalance (fresh 3 4)) + unat (aaveBalance (fresh 3 4))"
    by blast
  then have t: "\<exists>t. getTotalVaultValue (fresh 3 4) = Inr t \<and> unat t = 7"
    by (simp add: fresh_def)
  from empty_ledger_queries [OF z, of 1] z t show ?thesis
    by (simp add: fresh_def)
qed

text \<open>
  One unit of ether is sent to a freshly deployed vault: \<open>totalDeposits\<close> is still 0,
  the state is reachable, and \<open>getTotalVaultValue\<close> returns 1.
\<close>

theorem empty_ledger_value_positive:
  "receive_ether 1 (fresh 0 0)
     = Inr \<lparr>userDeposits = (\<lambda>_. 0), totalDeposits = 0, ethBalance = 1, aaveBalance = 0\<rparr> \<and>
   reachable \<lparr>userDeposits = (\<lambda>_. 0), totalDeposits = 0, ethBalance = 1, aaveBalance = 0\<rparr> \<and>
   totalDeposits \<lparr>userDeposits = (\<lambda>_. 0), totalDeposits = 0, ethBalance = 1, aaveBalance = 0\<rparr> = 0 \<and>
   getTotalVaultValue \<lparr>userDeposits = (\<lambda>_. 0), totalDeposits = 0, ethBalance = 1, aaveBalance = 0\<rparr>
     = Inr 1 \<and>
   getTotalVaultValue \<lparr>userDeposits = (\<lambda>_. 0), totalDeposits = 0, ethBalance = 1, aaveBalance = 0\<rparr>
     \<noteq> Inr 0"
proof -
  let ?st = "\<lparr>userDeposits = (\<lambda>_. 0), totalDeposits = 0, ethBalance = 1, aaveBalance = 0\<rparr>"
  have c: "receive_ether 1 (fresh 0 0) = Inr ?st"
    by (simp add: receive_ether_def credit_def fresh_def)
  have r: "reachable ?st"
    by (rule after_receive [OF deployed c])
  have v: "getTotalVaultValue ?st = Inr 1"
    by (simp add: getTotalVaultValue_def checked_add_def)
  from c r v show ?thesis by simp
qed

subsection \<open>Supply to the pool\<close>



subsection \<open>Deposit followed by withdrawal\<close>




subsection \<open>Plain ether transfers\<close>




end
